theory Spec2Isabelle
  imports Complex_Main
begin

section \<open>The rate limiter of camera\_client.py\<close>

text \<open>
  The class \<open>RateLimiter\<close> keeps four attributes: \<open>last_call\<close> (None until the first
  execution), \<open>period\<close>, \<open>outstanding_call\<close> and the stored call arguments. The source
  stores \<open>args\<close> and \<open>kargs\<close> side by side, always together; the model holds the pair
  as one optional value. Readings of \<open>time.monotonic()\<close> are idealised as real numbers,
  and the readings taken inside one call are taken to be the same instant.
\<close>

record 'a RateLimiter =
  last_call :: "real option"
  period :: real
  outstanding_call :: bool
  args :: "'a option"

definition RateLimiter_init :: "real \<Rightarrow> 'a RateLimiter" where
  "RateLimiter_init p =
     \<lparr>last_call = None, period = p, outstanding_call = False, args = None\<rparr>"

definition next_call_wait :: "real \<Rightarrow> 'a RateLimiter \<Rightarrow> real" where
  "next_call_wait now L =
     (case last_call L of None \<Rightarrow> - 1 | Some t \<Rightarrow> period L - (now - t))"

text \<open>
  What the wrapped function leaves behind: the state it acts on, and whether it returned
  or raised.
\<close>

datatype 'w outcome = Returns 'w | Raises 'w

text \<open>
  The process: the limiter objects (one per key \<open>'k\<close>; each limiter decorates one
  function, so the key also names the function), the timers that \<open>call_later\<close> has put
  on the event loop (the time at which each is due and the limiter whose \<open>wrapper\<close> it
  calls), a log of every call of a wrapped function (its time, limiter and arguments),
  and the state the wrapped functions act on.
\<close>

record ('k, 'a, 'w) process =
  limiters :: "'k \<Rightarrow> 'a RateLimiter"
  scheduled :: "(real \<times> 'k) list"
  executed :: "(real \<times> 'k \<times> 'a) list"
  world :: 'w

text \<open>
  \<open>wrapper\<close> writes \<open>last_call\<close> and \<open>outstanding_call\<close> first and calls the function
  afterwards, with the stored arguments. The boolean of the result says whether the call
  raised; unpacking \<open>None\<close> raises a TypeError before the function is entered.
\<close>

definition wrapper ::
  "('k \<Rightarrow> 'a \<Rightarrow> 'w \<Rightarrow> 'w outcome) \<Rightarrow> 'k \<Rightarrow> real \<Rightarrow> ('k, 'a, 'w) process
     \<Rightarrow> ('k, 'a, 'w) process \<times> bool" where
  "wrapper func k now P =
     (let L = (limiters P k)\<lparr>last_call := Some now, outstanding_call := False\<rparr>;
          P1 = P\<lparr>limiters := (limiters P)(k := L)\<rparr>
      in case args L of
           None \<Rightarrow> (P1, True)
         | Some a \<Rightarrow>
             (case func k a (world P1) of
                Returns w \<Rightarrow> (P1\<lparr>executed := executed P1 @ [(now, k, a)], world := w\<rparr>, False)
              | Raises w \<Rightarrow> (P1\<lparr>executed := executed P1 @ [(now, k, a)], world := w\<rparr>, True)))"

text \<open>
  \<open>async_wrapper\<close> is the function the decorator returns: it stores the arguments, asks
  for the delay, and either runs \<open>wrapper\<close> at once (\<open>delay < 0\<close>) or, when no call is
  flagged outstanding, puts a timer on the loop and sets the flag.
\<close>

definition async_wrapper ::
  "('k \<Rightarrow> 'a \<Rightarrow> 'w \<Rightarrow> 'w outcome) \<Rightarrow> 'k \<Rightarrow> 'a \<Rightarrow> real \<Rightarrow> ('k, 'a, 'w) process
     \<Rightarrow> ('k, 'a, 'w) process \<times> bool" where
  "async_wrapper func k a now P =
     (let L = (limiters P k)\<lparr>args := Some a\<rparr>;
          P1 = P\<lparr>limiters := (limiters P)(k := L)\<rparr>;
          delay = next_call_wait now L
      in if delay < 0 then wrapper func k now P1
         else if \<not> outstanding_call L then
           (P1\<lparr>limiters := (limiters P1)(k := L\<lparr>outstanding_call := True\<rparr>),
               scheduled := scheduled P1 @ [(now + delay, k)]\<rparr>, False)
         else (P1, False))"

text \<open>
  The event loop runs a timer no earlier than it is due (the resolution of the loop's
  clock is left out), and as late as the running code lets it: no timer runs while a
  callback or coroutine is running without awaiting. \<open>take_due\<close> removes the first
  timer of limiter \<open>k\<close> that is due at \<open>now\<close>; \<open>fire\<close> then runs its callback,
  \<open>wrapper\<close>. There is no timer to run when \<open>take_due\<close> finds none.
\<close>

fun take_due :: "'k \<Rightarrow> real \<Rightarrow> (real \<times> 'k) list \<Rightarrow> (real \<times> 'k) list option" where
  "take_due k now [] = None"
| "take_due k now ((d, j) # ts) =
     (if j = k \<and> d \<le> now then Some ts
      else map_option (Cons (d, j)) (take_due k now ts))"

definition fire ::
  "('k \<Rightarrow> 'a \<Rightarrow> 'w \<Rightarrow> 'w outcome) \<Rightarrow> 'k \<Rightarrow> real \<Rightarrow> ('k, 'a, 'w) process
     \<Rightarrow> (('k, 'a, 'w) process \<times> bool) option" where
  "fire func k now P =
     (case take_due k now (scheduled P) of
        None \<Rightarrow> None
      | Some ts \<Rightarrow> Some (wrapper func k now (P\<lparr>scheduled := ts\<rparr>)))"

text \<open>
  A history of one process: calls of decorated functions and timer firings, each with the
  clock reading at which it happens. \<open>run\<close> is None when the history asks for a timer
  that is not there or not yet due. An exception of an immediate execution goes to the
  caller and one of a deferred execution to the loop's handler; the history goes on
  either way.
\<close>

datatype ('k, 'a) event = Invoke 'k 'a | Fire 'k

fun step ::
  "('k \<Rightarrow> 'a \<Rightarrow> 'w \<Rightarrow> 'w outcome) \<Rightarrow> real \<times> ('k, 'a) event \<Rightarrow> ('k, 'a, 'w) process
     \<Rightarrow> ('k, 'a, 'w) process option" where
  "step func (now, Invoke k a) P = Some (fst (async_wrapper func k a now P))"
| "step func (now, Fire k) P = map_option fst (fire func k now P)"

fun run ::
  "('k \<Rightarrow> 'a \<Rightarrow> 'w \<Rightarrow> 'w outcome) \<Rightarrow> (real \<times> ('k, 'a) event) list \<Rightarrow> ('k, 'a, 'w) process
     \<Rightarrow> ('k, 'a, 'w) process option" where
  "run func [] P = Some P"
| "run func (e # es) P = (case step func e P of None \<Rightarrow> None | Some P' \<Rightarrow> run func es P')"

definition process_init :: "real \<Rightarrow> 'w \<Rightarrow> ('k, 'a, 'w) process" where
  "process_init p w =
     \<lparr>limiters = (\<lambda>k. RateLimiter_init p), scheduled = [], executed = [], world = w\<rparr>"

text \<open>
  The timers of one limiter that are on the loop, by the time each is due.
\<close>

definition timers_of :: "'k \<Rightarrow> ('k, 'a, 'w) process \<Rightarrow> real list" where
  "timers_of k P = map fst (filter (\<lambda>(d, j). j = k) (scheduled P))"

text \<open>
  The intended relation between the flag and the loop: no timer and the flag clear, or
  exactly one timer, the flag set, and the timer due one period after the last execution.
\<close>

definition single_timer :: "'k \<Rightarrow> ('k, 'a, 'w) process \<Rightarrow> bool" where
  "single_timer k P =
     (case timers_of k P of
        [] \<Rightarrow> \<not> outstanding_call (limiters P k)
      | [d] \<Rightarrow> outstanding_call (limiters P k)
               \<and> last_call (limiters P k) = Some (d - period (limiters P k))
      | _ \<Rightarrow> False)"

text \<open>No timer of the limiter is overdue at \<open>now\<close>.\<close>

definition none_overdue :: "'k \<Rightarrow> real \<Rightarrow> ('k, 'a, 'w) process \<Rightarrow> bool" where
  "none_overdue k now P = list_all (\<lambda>d. now \<le> d) (timers_of k P)"

text \<open>
  A history in which the loop runs every timer before the next call through its limiter
  that comes after the timer is due, and in which every firing asked for is possible.
\<close>

fun punctual ::
  "('k \<Rightarrow> 'a \<Rightarrow> 'w \<Rightarrow> 'w outcome) \<Rightarrow> (real \<times> ('k, 'a) event) list \<Rightarrow> ('k, 'a, 'w) process
     \<Rightarrow> bool" where
  "punctual func [] P = True"
| "punctual func ((now, ev) # es) P =
     ((case ev of Invoke k a \<Rightarrow> none_overdue k now P | Fire k \<Rightarrow> True)
      \<and> (case step func (now, ev) P of None \<Rightarrow> False | Some P' \<Rightarrow> punctual func es P'))"


section \<open>The camera client\<close>

text \<open>
  Modelled from the spec: the message types \<open>oak_pb2.CameraSettings\<close>,
  \<open>oak_pb2.CameraControlRequest\<close>, \<open>oak_pb2.CameraControlReply\<close>, the enumeration
  \<open>service_pb2.ReplyStatus\<close> and the class \<open>ServiceState\<close> are generated or imported
  code that is not among the sources. The source names the field \<open>auto_exposure\<close> of the
  settings and the member \<open>OK\<close> of the reply status; the other exposure and gain
  parameters are kept as one value of a type parameter, and every other status is
  \<open>NOT_OK\<close>. The states are those the spec lists, and \<open>ServiceState()\<close> without an
  argument is \<open>UNKNOWN\<close>, as the spec says.
\<close>

record 'p CameraSettings =
  auto_exposure :: bool
  exposure_params :: 'p

datatype ReplyStatus = OK | NOT_OK nat

datatype channel = Rgb | Mono

text \<open>
  A settings message is a mutable object: the client holds it by reference, the update
  methods store the very object the caller passes, and \<open>CopyFrom\<close> writes into an
  object in place. So message objects live in a store, under their identity:
  \<open>Built c k\<close> is the settings object that the constructor of the client at address
  \<open>c\<close> creates for channel \<open>k\<close>, and \<open>Made n\<close> is any other settings object, one
  that a caller created or one that is a part of a reply.
\<close>

datatype message_id = Built nat channel | Made nat

text \<open>
  A request is created inside \<open>send_settings\<close>, filled by \<open>CopyFrom\<close> and handed to
  the stub; nothing else holds it, so it is kept by its content. A reply object names
  its two sub-messages; their content is in the store.
\<close>

record 'p CameraControlRequest =
  request_stereo_settings :: "'p CameraSettings"
  request_rgb_settings :: "'p CameraSettings"

record CameraControlReply =
  status :: ReplyStatus
  stereo_settings :: message_id
  rgb_settings :: message_id

datatype ServiceState = UNKNOWN | STARTING | RUNNING | STOPPED | ERROR



text \<open>
  What awaiting a call on the gRPC stub gives: the reply, a raised \<open>grpc.RpcError\<close>
  (with its details), or any other exception.
\<close>

datatype ('e, 'r) rpc = Reply 'r | RpcError 'e | OtherException

record OakCameraClientConfig =
  port :: int
  address :: string

text \<open>
  The client object. Its two settings attributes are references to message objects.
  \<open>streams\<close> lists the streaming calls opened on the client's stub, each with its
  \<open>every_n\<close>, in the order they were opened; a stream handle is the position of its
  call in that list.
\<close>

record OakCameraClient =
  config :: OakCameraClientConfig
  mono_camera_settings :: message_id
  rgb_camera_settings :: message_id
  needs_update :: bool
  streams :: "int list"

text \<open>The store: the client objects by address, and the content of every message object.\<close>

record 'p objects =
  clients :: "nat \<Rightarrow> OakCameraClient"
  messages :: "message_id \<Rightarrow> 'p CameraSettings"

text \<open>
  The constructor, for the client at address \<open>self\<close>: it creates two settings
  objects of its own with automatic exposure (\<open>p0\<close> stands for the default of the other
  parameters).
\<close>

definition OakCameraClient_init ::
  "nat \<Rightarrow> OakCameraClientConfig \<Rightarrow> 'p \<Rightarrow> 'p objects \<Rightarrow> 'p objects" where
  "OakCameraClient_init self cfg p0 S =
     S\<lparr>clients := (clients S)(self :=
          \<lparr>config = cfg,
           mono_camera_settings = Built self Mono,
           rgb_camera_settings = Built self Rgb,
           needs_update = False,
           streams = []\<rparr>),
       messages := (messages S)
          (Built self Mono := \<lparr>auto_exposure = True, exposure_params = p0\<rparr>,
           Built self Rgb := \<lparr>auto_exposure = True, exposure_params = p0\<rparr>)\<rparr>"

text \<open>
  \<open>dst.CopyFrom(src)\<close> overwrites the content of the object \<open>dst\<close> with the
  content of \<open>src\<close>; copying an object from itself changes nothing.
\<close>

definition CopyFrom ::
  "message_id \<Rightarrow> message_id \<Rightarrow> (message_id \<Rightarrow> 'p CameraSettings)
     \<Rightarrow> (message_id \<Rightarrow> 'p CameraSettings)" where
  "CopyFrom dst src m = m(dst := m src)"

text \<open>
  \<open>settings_reply\<close> copies in place, first into the object the client holds for mono,
  then into the object it holds for rgb. These can be one and the same object.
\<close>

definition settings_reply :: "CameraControlReply \<Rightarrow> nat \<Rightarrow> 'p objects \<Rightarrow> 'p objects" where
  "settings_reply reply self S =
     (if status reply = OK
      then S\<lparr>messages :=
             CopyFrom (rgb_camera_settings (clients S self)) (rgb_settings reply)
               (CopyFrom (mono_camera_settings (clients S self)) (stereo_settings reply)
                  (messages S))\<rparr>
      else S)"



definition send_settings_request :: "nat \<Rightarrow> 'p objects \<Rightarrow> 'p CameraControlRequest" where
  "send_settings_request self S =
     \<lparr>request_stereo_settings = messages S (mono_camera_settings (clients S self)),
      request_rgb_settings = messages S (rgb_camera_settings (clients S self))\<rparr>"

text \<open>
  \<open>send_settings\<close> builds the request, clears \<open>needs_update\<close> and returns what awaiting
  \<open>cameraControl\<close> gives (a reply is returned, an exception goes to the caller). It does
  not call \<open>settings_reply\<close>.
\<close>

definition send_settings ::
  "('p CameraControlRequest \<Rightarrow> ('e, CameraControlReply) rpc) \<Rightarrow> nat \<Rightarrow> 'p objects
     \<Rightarrow> 'p objects \<times> ('e, CameraControlReply) rpc" where
  "send_settings cameraControl self S =
     (let request = send_settings_request self S
      in (S\<lparr>clients := (clients S)(self := (clients S self)\<lparr>needs_update := False\<rparr>)\<rparr>,
          cameraControl request))"

text \<open>\<open>stream_frames\<close> touches nothing but the client's own stub.\<close>

definition stream_frames :: "int \<Rightarrow> OakCameraClient \<Rightarrow> OakCameraClient \<times> nat" where
  "stream_frames every_n self =
     (self\<lparr>streams := streams self @ [every_n]\<rparr>, length (streams self))"

text \<open>
  The two decorated methods. The decorator expression \<open>RateLimiter(period=1)\<close> is
  evaluated when the class body runs, once for each of the two methods, so there is one
  limiter for \<open>update_rgb_settings\<close> and one for \<open>update_mono_settings\<close>, and every
  instance of the class calls through these two. A call \<open>client.update_rgb_settings(s)\<close>
  reaches \<open>async_wrapper\<close> with the arguments \<open>(client, s)\<close>, both references, and
  the method body stores the reference \<open>s\<close> in the client.
\<close>

fun update_settings ::
  "channel \<Rightarrow> nat \<times> message_id \<Rightarrow> 'p objects \<Rightarrow> 'p objects outcome" where
  "update_settings Rgb (self, new_rgb_settings) S =
     Returns (S\<lparr>clients := (clients S)(self :=
        (clients S self)\<lparr>needs_update := True, rgb_camera_settings := new_rgb_settings\<rparr>)\<rparr>)"
| "update_settings Mono (self, new_mono_settings) S =
     Returns (S\<lparr>clients := (clients S)(self :=
        (clients S self)\<lparr>needs_update := True, mono_camera_settings := new_mono_settings\<rparr>)\<rparr>)"

type_synonym 'p client_process = "(channel, nat \<times> message_id, 'p objects) process"

definition update_rgb_settings ::
  "nat \<Rightarrow> message_id \<Rightarrow> real \<Rightarrow> 'p client_process \<Rightarrow> 'p client_process \<times> bool" where
  "update_rgb_settings self new_rgb_settings now P =
     async_wrapper update_settings Rgb (self, new_rgb_settings) now P"

definition update_mono_settings ::
  "nat \<Rightarrow> message_id \<Rightarrow> real \<Rightarrow> 'p client_process \<Rightarrow> 'p client_process \<times> bool" where
  "update_mono_settings self new_mono_settings now P =
     async_wrapper update_settings Mono (self, new_mono_settings) now P"

definition client_process_init :: "'p objects \<Rightarrow> 'p client_process" where
  "client_process_init S = process_init 1 S"

text \<open>The object a client holds for a channel, and the content of that object.\<close>

definition channel_object :: "channel \<Rightarrow> OakCameraClient \<Rightarrow> message_id" where
  "channel_object k self =
     (case k of Rgb \<Rightarrow> rgb_camera_settings self | Mono \<Rightarrow> mono_camera_settings self)"

definition channel_settings :: "channel \<Rightarrow> nat \<Rightarrow> 'p objects \<Rightarrow> 'p CameraSettings" where
  "channel_settings k self S = messages S (channel_object k (clients S self))"

subsection \<open>Concrete histories\<close>

text \<open>A wrapped function that does nothing, and one that always raises.\<close>

definition noop :: "unit \<Rightarrow> nat \<Rightarrow> unit \<Rightarrow> unit outcome" where
  "noop k a w = Returns w"

definition failing :: "unit \<Rightarrow> nat \<Rightarrow> unit \<Rightarrow> unit outcome" where
  "failing k a w = Raises w"

text \<open>
  Three calls made without giving control back to the event loop, 0.5 and 0.7 apart;
  the timer that the second call sets for time 1 can run only after the third call, here
  at time 1.25.
\<close>

definition late_timer_history :: "(real \<times> (unit, nat) event) list" where
  "late_timer_history =
     [(0, Invoke () 1), (1/2, Invoke () 2), (6/5, Invoke () 3), (5/4, Fire ())]"

text \<open>The same three calls followed by a fourth at time 1.3, before the loop runs.\<close>

definition second_timer_history :: "(real \<times> (unit, nat) event) list" where
  "second_timer_history =
     [(0, Invoke () 1), (1/2, Invoke () 2), (6/5, Invoke () 3), (13/10, Invoke () 4)]"

text \<open>A limiter whose last execution was at time 0, with no call outstanding.\<close>

definition executed_at_zero :: "(unit, nat, unit) process" where
  "executed_at_zero = fst (async_wrapper noop () 1 0 (process_init 1 ()))"

definition manual_exposure :: "unit CameraSettings" where
  "manual_exposure = \<lparr>auto_exposure = False, exposure_params = ()\<rparr>"

definition auto_exposure_on :: "unit CameraSettings" where
  "auto_exposure_on = \<lparr>auto_exposure = True, exposure_params = ()\<rparr>"

text \<open>
  A store in which every address holds a client as the constructor leaves it, each with
  its own two settings objects. Of the other message objects, \<open>Made 0\<close>, \<open>Made 2\<close>,
  \<open>Made 3\<close> and \<open>Made 5\<close> hold manual exposure and the rest automatic exposure.
  \<open>Made 0\<close>, \<open>Made 1\<close> and \<open>Made 8\<close> are taken as objects of a caller, the others as
  the parts of replies.
\<close>

definition two_clients :: "unit objects" where
  "two_clients =
     \<lparr>clients = (\<lambda>c. \<lparr>config = \<lparr>port = 50051, address = ''localhost''\<rparr>,
                        mono_camera_settings = Built c Mono,
                        rgb_camera_settings = Built c Rgb,
                        needs_update = False,
                        streams = []\<rparr>),
      messages = (\<lambda>m. auto_exposure_on)
        (Made 0 := manual_exposure, Made 2 := manual_exposure,
         Made 3 := manual_exposure, Made 5 := manual_exposure)\<rparr>"

text \<open>
  A service that answers OK with a reply that sets manual exposure on both channels,
  whatever was asked.
\<close>

definition adjusting_service ::
  "unit CameraControlRequest \<Rightarrow> (unit, CameraControlReply) rpc" where
  "adjusting_service request =
     Reply \<lparr>status = OK, stereo_settings = Made 2, rgb_settings = Made 3\<rparr>"

text \<open>
  A service that answers with a status other than OK; its reply carries automatic
  exposure for mono and manual exposure for rgb.
\<close>

definition refusing_service ::
  "unit CameraControlRequest \<Rightarrow> (unit, CameraControlReply) rpc" where
  "refusing_service request =
     Reply \<lparr>status = NOT_OK 1, stereo_settings = Made 4, rgb_settings = Made 5\<rparr>"

text \<open>A service that answers OK with a reply that carries automatic exposure on both channels.\<close>

definition echoing_service ::
  "unit CameraControlRequest \<Rightarrow> (unit, CameraControlReply) rpc" where
  "echoing_service request =
     Reply \<lparr>status = OK, stereo_settings = Made 6, rgb_settings = Made 7\<rparr>"

text \<open>
  The store after client 0 executed an rgb update with the caller's object \<open>Made 0\<close>
  (manual exposure): the client holds that object for rgb and needs an update.
\<close>

definition dirty_client :: "unit objects" where
  "dirty_client =
     world (fst (update_rgb_settings 0 (Made 0) 0 (client_process_init two_clients)))"

text \<open>
  The store after client 0 executed a mono update and an rgb update with one and the
  same object \<open>Made 1\<close>: it holds that object for both channels.
\<close>

definition shared_object_client :: "unit objects" where
  "shared_object_client =
     world (fst (update_rgb_settings 0 (Made 1) 0
       (fst (update_mono_settings 0 (Made 1) 0 (client_process_init two_clients)))))"

text \<open>
  A process in which client 0 has an rgb update pending: its first update ran at time 0,
  its second, at time 0.5, set the timer.
\<close>

definition pending_rgb_process :: "unit client_process" where
  "pending_rgb_process =
     fst (update_rgb_settings 0 (Made 1) (1/2)
       (fst (update_rgb_settings 0 (Made 0) 0 (client_process_init two_clients))))"

section \<open>Properties of the rate limiter\<close>

text \<open>
  A call through a limiter leaves every other limiter as it was, and does not look at it:
  putting another limiter's state in before or after the call gives the same process.
\<close>

lemma async_wrapper_other_limiter:
  assumes "k \<noteq> k'"
  shows "async_wrapper func k a now (P\<lparr>limiters := (limiters P)(k' := L')\<rparr>) =
     (case async_wrapper func k a now P of
        (P', r) \<Rightarrow> (P'\<lparr>limiters := (limiters P')(k' := L')\<rparr>, r))"
  using assms
  by (auto simp: async_wrapper_def wrapper_def next_call_wait_def Let_def fun_upd_twist
      split: option.splits outcome.splits)

text \<open>
  Every call stores its arguments, and every execution, immediate or deferred, passes the
  arguments stored last.
\<close>

lemma async_wrapper_stores_args:
  "args (limiters (fst (async_wrapper func k a now P)) k) = Some a"
  by (simp add: async_wrapper_def wrapper_def Let_def split: option.splits outcome.splits)

lemma wrapper_uses_stored_args:
  "args (limiters P k) = Some a \<Longrightarrow>
     executed (fst (wrapper func k now P)) = executed P @ [(now, k, a)]
     \<and> args (limiters (fst (wrapper func k now P)) k) = Some a"
  by (simp add: wrapper_def Let_def split: outcome.splits)

lemma fire_uses_stored_args:
  "fire func k now P = Some Q \<Longrightarrow> args (limiters P k) = Some a \<Longrightarrow>
     executed (fst Q) = executed P @ [(now, k, a)]"
  by (auto simp: fire_def wrapper_def Let_def split: option.splits outcome.splits)

text \<open>
  As long as no call comes through a limiter while one of its timers is overdue, the
  limiter has at most one timer on the loop, the flag says whether it has one, and a
  deferred execution happens no sooner than one period after the execution before it.
\<close>

lemma wrapper_frame:
  "scheduled (fst (wrapper func k now P)) = scheduled P"
  "k' \<noteq> k \<Longrightarrow> limiters (fst (wrapper func k now P)) k' = limiters P k'"
  "limiters (fst (wrapper func k now P)) k
     = (limiters P k)\<lparr>last_call := Some now, outstanding_call := False\<rparr>"
  by (simp_all add: wrapper_def Let_def split: option.splits outcome.splits)

lemma single_timer_cong:
  "timers_of k Q = timers_of k P \<Longrightarrow> limiters Q k = limiters P k \<Longrightarrow>
     single_timer k Q = single_timer k P"
  by (simp add: single_timer_def cong: list.case_cong)

lemma single_timer_init: "single_timer k (process_init p w)"
  by (simp add: single_timer_def timers_of_def process_init_def RateLimiter_init_def)

lemma single_timer_async_wrapper:
  assumes "single_timer k P" and "none_overdue k now P"
  shows "single_timer k (fst (async_wrapper func k a now P))"
proof (cases "timers_of k P")
  case Nil
  with assms(1) have no: "\<not> outstanding_call (limiters P k)"
    by (simp add: single_timer_def)
  show ?thesis
  proof (cases "next_call_wait now ((limiters P k)\<lparr>args := Some a\<rparr>) < 0")
    case True
    then have "async_wrapper func k a now P
        = wrapper func k now (P\<lparr>limiters := (limiters P)(k := (limiters P k)\<lparr>args := Some a\<rparr>)\<rparr>)"
      by (simp add: async_wrapper_def Let_def)
    with Nil show ?thesis
      by (simp add: single_timer_def timers_of_def wrapper_frame)
  next
    case False
    then obtain t where t: "last_call (limiters P k) = Some t"
      by (auto simp: next_call_wait_def split: option.splits)
    from False no t Nil show ?thesis
      by (simp add: async_wrapper_def Let_def single_timer_def timers_of_def next_call_wait_def)
  qed
next
  case (Cons d ds)
  with assms(1) have ds: "ds = []" and out: "outstanding_call (limiters P k)"
    and L: "last_call (limiters P k) = Some (d - period (limiters P k))"
    by (auto simp: single_timer_def split: list.splits)
  from assms(2) Cons have "now \<le> d" by (simp add: none_overdue_def)
  with L have "\<not> next_call_wait now ((limiters P k)\<lparr>args := Some a\<rparr>) < 0"
    by (simp add: next_call_wait_def)
  with out have "async_wrapper func k a now P
      = (P\<lparr>limiters := (limiters P)(k := (limiters P k)\<lparr>args := Some a\<rparr>)\<rparr>, False)"
    by (simp add: async_wrapper_def Let_def)
  with Cons ds out L show ?thesis
    by (simp add: single_timer_def timers_of_def)
qed

lemma single_timer_async_wrapper_other:
  assumes "single_timer k P" and "k' \<noteq> k"
  shows "single_timer k (fst (async_wrapper func k' a now P))"
proof -
  have "timers_of k (fst (async_wrapper func k' a now P)) = timers_of k P"
    using assms(2)
    by (simp add: timers_of_def async_wrapper_def wrapper_def Let_def
        split: option.splits outcome.splits)
  moreover have "limiters (fst (async_wrapper func k' a now P)) k = limiters P k"
    using assms(2)
    by (simp add: async_wrapper_def wrapper_def Let_def split: option.splits outcome.splits)
  ultimately have "single_timer k (fst (async_wrapper func k' a now P)) = single_timer k P" by (rule single_timer_cong)
  with assms(1) show ?thesis by simp
qed

lemma take_due_Some:
  "take_due k now ts = Some ts' \<Longrightarrow>
     \<exists>d pre post. ts = pre @ (d, k) # post \<and> ts' = pre @ post \<and> d \<le> now"
proof (induction ts arbitrary: ts')
  case Nil
  then show ?case by simp
next
  case (Cons x ts)
  obtain d j where x: "x = (d, j)" by (cases x)
  show ?case
  proof (cases "j = k \<and> d \<le> now")
    case True
    with Cons.prems x have "ts' = ts" by simp
    with True x have "x # ts = [] @ (d, k) # ts \<and> ts' = [] @ ts \<and> d \<le> now" by simp
    then show ?thesis by blast
  next
    case False
    with Cons.prems x obtain z where z: "take_due k now ts = Some z" "ts' = (d, j) # z"
      by auto
    from Cons.IH [OF z(1)] obtain e pre post
      where "ts = pre @ (e, k) # post" "z = pre @ post" "e \<le> now" by blast
    with z(2) x have "x # ts = (x # pre) @ (e, k) # post \<and> ts' = (x # pre) @ post \<and> e \<le> now"
      by simp
    then show ?thesis by blast
  qed
qed

lemma single_timer_fire:
  assumes "single_timer k P" and "fire func k now P = Some Q"
  shows "single_timer k (fst Q)
       \<and> (\<exists>t. last_call (limiters P k) = Some t \<and> t + period (limiters P k) \<le> now)"
proof -
  from assms(2) obtain ts where ts: "take_due k now (scheduled P) = Some ts"
    and Q: "Q = wrapper func k now (P\<lparr>scheduled := ts\<rparr>)"
    by (auto simp: fire_def split: option.splits)
  from take_due_Some [OF ts] obtain d pre post
    where sp: "scheduled P = pre @ (d, k) # post" "ts = pre @ post" "d \<le> now" by blast
  let ?f = "\<lambda>xs. map fst (filter (\<lambda>(d, j). j = k) xs)"
  have tm: "timers_of k P = ?f pre @ d # ?f post"
    by (simp add: timers_of_def sp(1))
  with assms(1) obtain x where x: "?f pre @ d # ?f post = [x]"
    and Lx: "last_call (limiters P k) = Some (x - period (limiters P k))"
    by (auto simp: single_timer_def split: list.splits)
  from x have e: "?f pre = []" "?f post = []" and "x = d"
    by (simp_all add: append_eq_Cons_conv)
  with Lx have L: "last_call (limiters P k) = Some (d - period (limiters P k))"
    by simp
  from e sp(2) have "timers_of k (fst Q) = []"
    by (simp add: timers_of_def Q wrapper_frame)
  then have "single_timer k (fst Q)"
    by (simp add: single_timer_def Q wrapper_frame)
  with L sp(3) show ?thesis by simp
qed

lemma single_timer_fire_other:
  assumes "single_timer k P" and "fire func k' now P = Some Q" and "k' \<noteq> k"
  shows "single_timer k (fst Q)"
proof -
  from assms(2) obtain ts where ts: "take_due k' now (scheduled P) = Some ts"
    and Q: "Q = wrapper func k' now (P\<lparr>scheduled := ts\<rparr>)"
    by (auto simp: fire_def split: option.splits)
  from take_due_Some [OF ts] obtain d pre post
    where sp: "scheduled P = pre @ (d, k') # post" "ts = pre @ post" by blast
  from sp assms(3) have "timers_of k (fst Q) = timers_of k P"
    by (simp add: timers_of_def Q wrapper_frame)
  moreover from assms(3) have "limiters (fst Q) k = limiters P k"
    by (simp add: Q wrapper_frame)
  ultimately have "single_timer k (fst Q) = single_timer k P" by (rule single_timer_cong)
  with assms(1) show ?thesis by simp
qed

lemma immediate_execution_spacing:
  assumes "last_call (limiters P k) = Some t"
      and "executed (fst (async_wrapper func k a now P)) \<noteq> executed P"
  shows "t + period (limiters P k) < now"
  using assms
  by (auto simp: async_wrapper_def wrapper_def next_call_wait_def Let_def
      split: option.splits outcome.splits if_splits)

lemma single_timer_at_most_one:
  "single_timer k P \<Longrightarrow> length (timers_of k P) \<le> 1"
  by (auto simp: single_timer_def split: list.splits)

lemma single_timer_step:
  assumes "\<forall>k. single_timer k P"
      and "step func (now, ev) P = Some Q"
      and "case ev of Invoke k a \<Rightarrow> none_overdue k now P | Fire k \<Rightarrow> True"
  shows "\<forall>k. single_timer k Q"
proof (cases ev)
  case (Invoke k a)
  with assms(2) have Q: "Q = fst (async_wrapper func k a now P)" by simp
  show ?thesis
  proof
    fix j
    show "single_timer j Q"
    proof (cases "j = k")
      case True
      with assms(1,3) Invoke Q show ?thesis by (simp add: single_timer_async_wrapper)
    next
      case False
      with assms(1) Q show ?thesis by (simp add: single_timer_async_wrapper_other)
    qed
  qed
next
  case (Fire k)
  with assms(2) obtain R where R: "fire func k now P = Some R" and Q: "Q = fst R"
    by auto
  show ?thesis
  proof
    fix j
    show "single_timer j Q"
    proof (cases "j = k")
      case True
      with assms(1) R Q single_timer_fire [of k P func now R] show ?thesis by simp
    next
      case False
      with assms(1) R Q single_timer_fire_other [of j P func k now R] show ?thesis by simp
    qed
  qed
qed

lemma single_timer_run:
  assumes "\<forall>k. single_timer k P" and "punctual func es P" and "run func es P = Some Q"
  shows "\<forall>k. single_timer k Q"
  using assms
proof (induction es arbitrary: P)
  case Nil
  then show ?case by simp
next
  case (Cons e es)
  obtain now ev where e: "e = (now, ev)" by (cases e)
  from Cons.prems(2) e obtain P' where P': "step func (now, ev) P = Some P'"
    and p: "punctual func es P'"
    and o: "case ev of Invoke k a \<Rightarrow> none_overdue k now P | Fire k \<Rightarrow> True"
    by (auto split: option.splits)
  from single_timer_step [OF Cons.prems(1) P' o] have "\<forall>k. single_timer k P'" .
  moreover from Cons.prems(3) e P' have "run func es P' = Some Q" by simp
  ultimately show ?case using p Cons.IH by blast
qed

text \<open>
  Claim C3. Calls to one limiter spaced less than a period apart should give at most one
  execution per period, each with the arguments of the last call before it. On the
  history \<open>late_timer_history\<close> (period 1; calls at 0, 0.5 and 1.2; the timer set by
  the second call runs at 1.25) the function is executed at 1.2 by the third call itself
  and again at 1.25 by the timer, twice within 0.05: the immediate execution leaves the
  timer on the loop.
\<close>

theorem late_timer_two_executions:
  "map_option executed (run noop late_timer_history (process_init 1 ())) =
     Some [(0, (), 1), (6/5, (), 3), (5/4, (), 3)]"
  by (simp add: late_timer_history_def process_init_def RateLimiter_init_def noop_def
      async_wrapper_def wrapper_def next_call_wait_def fire_def Let_def)

text \<open>
  Claim C6. At most one deferred execution should be scheduled at any time. On the
  history \<open>second_timer_history\<close> (period 1; calls at 0, 0.5, 1.2 and 1.3, the loop not
  running in between) two timers are on the loop at the end, due at 1 and at 2.2: the
  call at 1.2 executes at once and clears \<open>outstanding_call\<close> while the timer of the
  call at 0.5 is still scheduled, so the call at 1.3 schedules another.
\<close>

theorem second_timer_scheduled:
  "map_option scheduled (run noop second_timer_history (process_init 1 ())) =
     Some [(1, ()), (11/5, ())]"
  by (simp add: second_timer_history_def process_init_def RateLimiter_init_def noop_def
      async_wrapper_def wrapper_def next_call_wait_def Let_def)

text \<open>
  Claim C7, as stated, fails where the remaining time is exactly 0: the limiter executed
  at time 0 with period 1, a call arrives at time 1, the remaining time is \<open>\<le> 0\<close>, and
  the call is not executed but put on the loop with delay 0; \<open>last_call\<close> stays 0.
\<close>

theorem zero_remaining_deferred_counterexample:
  "last_call (limiters executed_at_zero ()) = Some 0
   \<and> period (limiters executed_at_zero ()) - (1 - 0) \<le> 0
   \<and> executed (fst (async_wrapper noop () 2 1 executed_at_zero)) = executed executed_at_zero
   \<and> last_call (limiters (fst (async_wrapper noop () 2 1 executed_at_zero)) ()) = Some 0
   \<and> scheduled (fst (async_wrapper noop () 2 1 executed_at_zero)) = [(1, ())]"
  by (simp add: executed_at_zero_def process_init_def RateLimiter_init_def noop_def
      async_wrapper_def wrapper_def next_call_wait_def Let_def)

text \<open>
  Claim C7, amended: a call through the limiter executes the function at once, with the
  call's own arguments, exactly when no execution has happened yet or the remaining time
  \<open>period - (now - last_call)\<close> is strictly negative. In those cases \<open>last_call\<close>
  becomes \<open>now\<close> and no timer is added; in every other case nothing is executed by the
  call, and \<open>last_call\<close> and the state the function acts on stay as they were: the
  call is deferred. Its arguments are stored and the outstanding flag is set; if no call
  was outstanding, a timer due after the remaining time is put on the loop, and
  otherwise the timers stay as they are.
\<close>

theorem immediate_execution_iff:
  "(executed (fst (async_wrapper func k a now P)) = executed P @ [(now, k, a)]
      \<longleftrightarrow> (last_call (limiters P k) = None
           \<or> (\<exists>t. last_call (limiters P k) = Some t \<and> period (limiters P k) - (now - t) < 0)))
   \<and> (executed (fst (async_wrapper func k a now P)) = executed P @ [(now, k, a)]
      \<longrightarrow> last_call (limiters (fst (async_wrapper func k a now P)) k) = Some now
        \<and> scheduled (fst (async_wrapper func k a now P)) = scheduled P)
   \<and> (executed (fst (async_wrapper func k a now P)) \<noteq> executed P @ [(now, k, a)]
      \<longrightarrow> executed (fst (async_wrapper func k a now P)) = executed P
        \<and> last_call (limiters (fst (async_wrapper func k a now P)) k) = last_call (limiters P k)
        \<and> world (fst (async_wrapper func k a now P)) = world P)
   \<and> (executed (fst (async_wrapper func k a now P)) \<noteq> executed P @ [(now, k, a)]
      \<longrightarrow> args (limiters (fst (async_wrapper func k a now P)) k) = Some a
        \<and> outstanding_call (limiters (fst (async_wrapper func k a now P)) k)
        \<and> (\<forall>t. last_call (limiters P k) = Some t \<longrightarrow>
              scheduled (fst (async_wrapper func k a now P)) =
                (if outstanding_call (limiters P k) then scheduled P
                 else scheduled P @ [(now + (period (limiters P k) - (now - t)), k)])))"
  by (auto simp: async_wrapper_def wrapper_def next_call_wait_def Let_def
      split: option.splits outcome.splits)

theorem immediate_execution_iff_witness:
  "last_call (limiters executed_at_zero ()) = Some 0
   \<and> period (limiters executed_at_zero ()) - (2 - 0) < 0
   \<and> executed (fst (async_wrapper noop () 2 2 executed_at_zero))
       = executed executed_at_zero @ [(2, (), 2)]
   \<and> last_call (limiters (fst (async_wrapper noop () 2 2 executed_at_zero)) ()) = Some 2"
  using immediate_execution_iff [of noop "()" 2 2 executed_at_zero]
  by (simp add: executed_at_zero_def process_init_def RateLimiter_init_def noop_def
      async_wrapper_def wrapper_def next_call_wait_def Let_def)

text \<open>
  Claim C10. \<open>wrapper\<close> writes \<open>last_call\<close> and clears \<open>outstanding_call\<close> before it
  calls the function. So a function that raises leaves the limiters and the timers
  exactly as a function that returns does, and a following call within the period is not
  executed but coalesced: its arguments are stored, a timer due one period after the
  raising execution is put on the loop, and the outstanding flag is set.
\<close>

theorem raising_action_same_limiter_state:
  assumes "args (limiters P k) = Some a"
      and "func k a (world P) = Raises w"
      and "func' k a (world P) = Returns w'"
      and "now \<le> now'" and "now' - now \<le> period (limiters P k)"
  shows "snd (wrapper func k now P) \<and> \<not> snd (wrapper func' k now P)
       \<and> limiters (fst (wrapper func k now P)) = limiters (fst (wrapper func' k now P))
       \<and> scheduled (fst (wrapper func k now P)) = scheduled (fst (wrapper func' k now P))
       \<and> last_call (limiters (fst (wrapper func k now P)) k) = Some now
       \<and> \<not> outstanding_call (limiters (fst (wrapper func k now P)) k)
       \<and> executed (fst (async_wrapper func k a' now' (fst (wrapper func k now P))))
           = executed (fst (wrapper func k now P))
       \<and> outstanding_call
           (limiters (fst (async_wrapper func k a' now' (fst (wrapper func k now P)))) k)
       \<and> scheduled (fst (async_wrapper func k a' now' (fst (wrapper func k now P))))
           = scheduled P @ [(now + period (limiters P k), k)]
       \<and> args (limiters (fst (async_wrapper func k a' now' (fst (wrapper func k now P)))) k)
           = Some a'
       \<and> last_call (limiters (fst (async_wrapper func k a' now' (fst (wrapper func k now P)))) k)
           = Some now
       \<and> world (fst (async_wrapper func k a' now' (fst (wrapper func k now P))))
           = world (fst (wrapper func k now P))"
  using assms
  by (simp add: async_wrapper_def wrapper_def next_call_wait_def Let_def)

theorem raising_action_same_limiter_state_witness:
  "args (limiters executed_at_zero ()) = Some 1
   \<and> failing () 1 (world executed_at_zero) = Raises ()
   \<and> noop () 1 (world executed_at_zero) = Returns ()
   \<and> (2::real) \<le> 5/2 \<and> 5/2 - 2 \<le> period (limiters executed_at_zero ())
   \<and> snd (wrapper failing () 2 executed_at_zero)
   \<and> limiters (fst (wrapper failing () 2 executed_at_zero))
       = limiters (fst (wrapper noop () 2 executed_at_zero))
   \<and> executed (fst (async_wrapper failing () 7 (5/2) (fst (wrapper failing () 2 executed_at_zero))))
       = executed (fst (wrapper failing () 2 executed_at_zero))
   \<and> scheduled (fst (async_wrapper failing () 7 (5/2) (fst (wrapper failing () 2 executed_at_zero))))
       = [(3, ())]
   \<and> args (limiters (fst (async_wrapper failing () 7 (5/2)
        (fst (wrapper failing () 2 executed_at_zero)))) ()) = Some 7"
proof -
  have h1: "args (limiters executed_at_zero ()) = Some 1"
    by (simp add: executed_at_zero_def process_init_def RateLimiter_init_def noop_def
        async_wrapper_def wrapper_def next_call_wait_def Let_def)
  have h2: "failing () 1 (world executed_at_zero) = Raises ()"
    by (simp add: failing_def)
  have h3: "noop () 1 (world executed_at_zero) = Returns ()"
    by (simp add: noop_def)
  have h4: "(2::real) \<le> 5/2" by simp
  have h5: "5/2 - 2 \<le> period (limiters executed_at_zero ())"
    by (simp add: executed_at_zero_def process_init_def RateLimiter_init_def noop_def
        async_wrapper_def wrapper_def next_call_wait_def Let_def)
  note inst = raising_action_same_limiter_state
    [where P = executed_at_zero and k = "()" and a = 1 and func = failing and func' = noop
       and w = "()" and w' = "()" and now = 2 and now' = "5/2" and a' = 7]
  have h6: "scheduled executed_at_zero = []" "period (limiters executed_at_zero ()) = 1"
    by (simp_all add: executed_at_zero_def process_init_def RateLimiter_init_def noop_def
        async_wrapper_def wrapper_def next_call_wait_def Let_def)
  from inst [OF h1 h2 h3 h4 h5] h1 h2 h3 h4 h5 h6
  show ?thesis by simp
qed

section \<open>Properties of the camera client\<close>

text \<open>
  The concrete store is what the constructor would make of it: constructing client 0 or
  client 1 again changes nothing.
\<close>

lemma two_clients_constructed:
  "OakCameraClient_init 0 \<lparr>port = 50051, address = ''localhost''\<rparr> () two_clients = two_clients"
  "OakCameraClient_init 1 \<lparr>port = 50051, address = ''localhost''\<rparr> () two_clients = two_clients"
  by (simp_all add: OakCameraClient_init_def two_clients_def auto_exposure_on_def fun_eq_iff)

text \<open>
  Claim C1, as stated, fails: \<open>send_settings\<close> returns the reply and never touches the
  settings. With a service that answers OK and echoes manual exposure for both channels,
  the client's settings after \<open>send_settings\<close> are still the automatic exposure it was
  built with.
\<close>

theorem send_settings_keeps_snapshot_counterexample:
  "snd (send_settings adjusting_service 0 two_clients)
     = Reply \<lparr>status = OK, stereo_settings = Made 2, rgb_settings = Made 3\<rparr>
   \<and> messages two_clients (Made 2) = manual_exposure
   \<and> messages two_clients (Made 3) = manual_exposure
   \<and> channel_settings Rgb 0 (fst (send_settings adjusting_service 0 two_clients))
       \<noteq> manual_exposure
   \<and> channel_settings Mono 0 (fst (send_settings adjusting_service 0 two_clients))
       \<noteq> manual_exposure"
  by (simp add: send_settings_def adjusting_service_def two_clients_def channel_settings_def
      channel_object_def manual_exposure_def auto_exposure_on_def Let_def)

text \<open>
  When a client holds one object for both channels, \<open>settings_reply\<close> writes it twice,
  and both channels end with what the reply carries for rgb: here the reply carries
  automatic exposure for mono and manual exposure for rgb, and mono ends manual.
\<close>

lemma settings_reply_shared_object:
  "mono_camera_settings (clients shared_object_client 0) = Made 1
   \<and> rgb_camera_settings (clients shared_object_client 0) = Made 1
   \<and> messages shared_object_client (Made 6) = auto_exposure_on
   \<and> messages shared_object_client (Made 3) = manual_exposure
   \<and> channel_settings Mono 0 (settings_reply
        \<lparr>status = OK, stereo_settings = Made 6, rgb_settings = Made 3\<rparr> 0 shared_object_client)
       = manual_exposure
   \<and> channel_settings Rgb 0 (settings_reply
        \<lparr>status = OK, stereo_settings = Made 6, rgb_settings = Made 3\<rparr> 0 shared_object_client)
       = manual_exposure"
  by (simp add: shared_object_client_def update_rgb_settings_def update_mono_settings_def
      client_process_init_def process_init_def RateLimiter_init_def async_wrapper_def
      wrapper_def next_call_wait_def Let_def two_clients_def settings_reply_def CopyFrom_def
      channel_settings_def channel_object_def)

text \<open>
  Claim C1, amended: for every settings push that the service answers with status OK,
  \<open>send_settings\<close> returns that reply and leaves every settings object, and the
  objects the client holds, as they were. It is \<open>settings_reply\<close>, called with the
  reply, that overwrites the client's settings, in place: first the object held for mono
  with what the reply carries for stereo, then the object held for rgb with what the
  reply carries for rgb; no other object changes. So the rgb settings end as exactly the
  rgb settings of the reply (unless the reply's rgb part is the very object the client
  holds for mono, which the first copy has overwritten with the reply's stereo settings),
  and the mono settings end as exactly the stereo settings of the reply when the client
  holds two different objects, and as its rgb settings when it holds one object for both
  channels. In particular pushing automatic exposure for rgb and passing an OK reply that
  echoes it leaves the rgb settings equal to that value.
\<close>

theorem settings_reply_after_send_ok:
  assumes "cameraControl (send_settings_request self S) = Reply reply" and "status reply = OK"
  shows "snd (send_settings cameraControl self S) = Reply reply
       \<and> messages (fst (send_settings cameraControl self S)) = messages S
       \<and> mono_camera_settings (clients (fst (send_settings cameraControl self S)) self)
           = mono_camera_settings (clients S self)
       \<and> rgb_camera_settings (clients (fst (send_settings cameraControl self S)) self)
           = rgb_camera_settings (clients S self)
       \<and> clients (settings_reply reply self (fst (send_settings cameraControl self S)))
           = clients (fst (send_settings cameraControl self S))
       \<and> channel_settings Rgb self
             (settings_reply reply self (fst (send_settings cameraControl self S)))
           = (if rgb_settings reply = mono_camera_settings (clients S self)
              then messages S (stereo_settings reply)
              else messages S (rgb_settings reply))
       \<and> channel_settings Mono self
             (settings_reply reply self (fst (send_settings cameraControl self S)))
           = (if mono_camera_settings (clients S self) = rgb_camera_settings (clients S self)
              then channel_settings Rgb self
                     (settings_reply reply self (fst (send_settings cameraControl self S)))
              else messages S (stereo_settings reply))
       \<and> (\<forall>m. m \<noteq> mono_camera_settings (clients S self)
              \<and> m \<noteq> rgb_camera_settings (clients S self)
            \<longrightarrow> messages (settings_reply reply self (fst (send_settings cameraControl self S))) m
                = messages S m)"
  using assms
  by (simp add: send_settings_def settings_reply_def CopyFrom_def channel_settings_def
      channel_object_def Let_def)

theorem settings_reply_after_send_ok_witness:
  "echoing_service (send_settings_request 0 two_clients)
     = Reply \<lparr>status = OK, stereo_settings = Made 6, rgb_settings = Made 7\<rparr>
   \<and> status \<lparr>status = OK, stereo_settings = Made 6, rgb_settings = Made 7\<rparr> = OK
   \<and> request_rgb_settings (send_settings_request 0 two_clients) = auto_exposure_on
   \<and> messages two_clients (Made 7) = auto_exposure_on
   \<and> channel_settings Rgb 0 (settings_reply
        \<lparr>status = OK, stereo_settings = Made 6, rgb_settings = Made 7\<rparr> 0
        (fst (send_settings echoing_service 0 two_clients)))
      = auto_exposure_on"
  using settings_reply_after_send_ok [of echoing_service 0 two_clients
      "\<lparr>status = OK, stereo_settings = Made 6, rgb_settings = Made 7\<rparr>"]
  by (simp add: echoing_service_def send_settings_request_def two_clients_def)

text \<open>
  Claim C2, as stated, fails: two calls of \<open>stream_frames(10)\<close> on one client open two
  streaming calls on the stub and return two different handles.
\<close>

theorem stream_frames_twice_counterexample:
  "snd (stream_frames 10 (clients two_clients 0)) = 0
   \<and> snd (stream_frames 10 (fst (stream_frames 10 (clients two_clients 0)))) = 1
   \<and> streams (fst (stream_frames 10 (fst (stream_frames 10 (clients two_clients 0))))) = [10, 10]"
  by (simp add: stream_frames_def two_clients_def)

text \<open>
  Claim C2, amended: every call of \<open>stream_frames(n)\<close> opens one new server stream
  with \<open>every_n = n\<close> and returns the handle of that new stream; a second call on the
  same client returns a different handle and leaves two streams open. The client keeps no
  handle: reusing one is left to the caller.
\<close>

theorem stream_frames_opens_new_stream:
  "snd (stream_frames m (fst (stream_frames n self))) \<noteq> snd (stream_frames n self)
   \<and> streams (fst (stream_frames n self)) = streams self @ [n]
   \<and> streams (fst (stream_frames m (fst (stream_frames n self)))) = streams self @ [n, m]
   \<and> streams (fst (stream_frames n self)) ! snd (stream_frames n self) = n"
  by (simp add: stream_frames_def)

text \<open>
  Claim C4, as stated, fails in its second half: a client that needs an update pushes its
  settings, the service answers with a status other than OK, and afterwards
  \<open>needs_update\<close> is False, because \<open>send_settings\<close> cleared it when it dispatched and
  \<open>settings_reply\<close> does not set it.
\<close>

theorem not_ok_reply_flag_cleared_counterexample:
  "needs_update (clients dirty_client 0)
   \<and> snd (send_settings refusing_service 0 dirty_client)
       = Reply \<lparr>status = NOT_OK 1, stereo_settings = Made 4, rgb_settings = Made 5\<rparr>
   \<and> \<not> needs_update (clients (settings_reply
          \<lparr>status = NOT_OK 1, stereo_settings = Made 4, rgb_settings = Made 5\<rparr> 0
          (fst (send_settings refusing_service 0 dirty_client))) 0)"
  by (simp add: send_settings_def refusing_service_def dirty_client_def update_rgb_settings_def
      client_process_init_def process_init_def RateLimiter_init_def async_wrapper_def
      wrapper_def next_call_wait_def two_clients_def settings_reply_def Let_def)

text \<open>
  Claim C4, amended: for every settings push whose reply carries a status other than OK,
  the mono and rgb settings of the client after \<open>send_settings\<close> and \<open>settings_reply\<close>
  are the ones it had before (it holds the same objects, and no settings object has
  changed); \<open>needs_update\<close> is False afterwards (it is cleared on dispatch, whatever the
  reply); and a following \<open>send_settings\<close> builds the same request again.
\<close>

theorem not_ok_reply_keeps_settings:
  assumes "cameraControl (send_settings_request self S) = Reply reply" and "status reply \<noteq> OK"
  shows "channel_settings Mono self
             (settings_reply reply self (fst (send_settings cameraControl self S)))
           = channel_settings Mono self S
       \<and> channel_settings Rgb self
             (settings_reply reply self (fst (send_settings cameraControl self S)))
           = channel_settings Rgb self S
       \<and> mono_camera_settings
             (clients (settings_reply reply self (fst (send_settings cameraControl self S))) self)
           = mono_camera_settings (clients S self)
       \<and> rgb_camera_settings
             (clients (settings_reply reply self (fst (send_settings cameraControl self S))) self)
           = rgb_camera_settings (clients S self)
       \<and> messages (settings_reply reply self (fst (send_settings cameraControl self S)))
           = messages S
       \<and> \<not> needs_update
             (clients (settings_reply reply self (fst (send_settings cameraControl self S))) self)
       \<and> send_settings_request self
             (settings_reply reply self (fst (send_settings cameraControl self S)))
           = send_settings_request self S"
  using assms
  by (simp add: send_settings_def settings_reply_def send_settings_request_def
      channel_settings_def channel_object_def Let_def)

theorem not_ok_reply_keeps_settings_witness:
  "refusing_service (send_settings_request 0 dirty_client)
     = Reply \<lparr>status = NOT_OK 1, stereo_settings = Made 4, rgb_settings = Made 5\<rparr>
   \<and> status \<lparr>status = NOT_OK 1, stereo_settings = Made 4, rgb_settings = Made 5\<rparr> \<noteq> OK
   \<and> channel_settings Rgb 0 (settings_reply
        \<lparr>status = NOT_OK 1, stereo_settings = Made 4, rgb_settings = Made 5\<rparr> 0
        (fst (send_settings refusing_service 0 dirty_client))) = manual_exposure
   \<and> send_settings_request 0 (settings_reply
        \<lparr>status = NOT_OK 1, stereo_settings = Made 4, rgb_settings = Made 5\<rparr> 0
        (fst (send_settings refusing_service 0 dirty_client))) = send_settings_request 0 dirty_client"
  using not_ok_reply_keeps_settings [of refusing_service 0 dirty_client
      "\<lparr>status = NOT_OK 1, stereo_settings = Made 4, rgb_settings = Made 5\<rparr>"]
  by (simp add: refusing_service_def dirty_client_def update_rgb_settings_def
      client_process_init_def process_init_def RateLimiter_init_def async_wrapper_def
      wrapper_def next_call_wait_def two_clients_def channel_settings_def channel_object_def
      Let_def)



text \<open>
  Claim C8, as stated, fails for two instances: client 1's first rgb update, at time 0.5,
  is applied at once when client 0 made no call, and is held back when client 0 made an
  rgb update at time 0. The call of one instance reads the limiter state the other wrote.
\<close>

theorem shared_limiter_counterexample:
  "rgb_camera_settings (clients (world (fst (update_rgb_settings 1 (Made 0) (1/2)
      (fst (update_rgb_settings 0 (Made 0) 0 (client_process_init two_clients)))))) 1)
     = Built 1 Rgb
   \<and> rgb_camera_settings (clients (world (fst (update_rgb_settings 1 (Made 0) (1/2)
      (client_process_init two_clients)))) 1) = Made 0
   \<and> auto_exposure (channel_settings Rgb 1 (world (fst (update_rgb_settings 1 (Made 0) (1/2)
      (fst (update_rgb_settings 0 (Made 0) 0 (client_process_init two_clients)))))))
   \<and> \<not> auto_exposure (channel_settings Rgb 1 (world (fst (update_rgb_settings 1 (Made 0) (1/2)
      (client_process_init two_clients)))))"
  by (simp add: update_rgb_settings_def client_process_init_def process_init_def RateLimiter_init_def
      async_wrapper_def wrapper_def next_call_wait_def Let_def two_clients_def
      channel_settings_def channel_object_def manual_exposure_def auto_exposure_on_def)

text \<open>
  Claim C8, amended: the class has one limiter per limited action, one for rgb updates
  and one for mono updates, each with period 1, and no update or timer changes a period.
  The two limiters share no state: an rgb update neither reads nor writes the mono
  limiter, and the other way round. All instances of the class use the same two
  limiters. When the last execution of a channel's update, by whichever instance, was at
  time \<open>t\<close>, an update of that channel by any instance \<open>b\<close> at a time \<open>t'\<close> with
  \<open>t' - t \<le> period\<close> executes nothing, changes no client, and overwrites the stored
  arguments with those of \<open>b\<close>; and an update by any instance \<open>a\<close> that is executed
  at once sets the time of the last execution that all the instances read.
\<close>

theorem limiters_per_channel_shared_by_instances:
  "period (limiters (client_process_init S) Rgb) = 1
   \<and> period (limiters (client_process_init S) Mono) = 1
   \<and> period (limiters (fst (update_rgb_settings self s now P)) k) = period (limiters P k)
   \<and> period (limiters (fst (update_mono_settings self s now P)) k) = period (limiters P k)
   \<and> (\<forall>Q. fire update_settings k' now P = Some Q
          \<longrightarrow> period (limiters (fst Q) k) = period (limiters P k))
   \<and> update_rgb_settings self s now (P\<lparr>limiters := (limiters P)(Mono := L')\<rparr>) =
       (case update_rgb_settings self s now P of
          (P', r) \<Rightarrow> (P'\<lparr>limiters := (limiters P')(Mono := L')\<rparr>, r))
   \<and> update_mono_settings self s now (P\<lparr>limiters := (limiters P)(Rgb := L')\<rparr>) =
       (case update_mono_settings self s now P of
          (P', r) \<Rightarrow> (P'\<lparr>limiters := (limiters P')(Rgb := L')\<rparr>, r))
   \<and> (last_call (limiters P Rgb) = Some t \<and> t' - t \<le> period (limiters P Rgb) \<longrightarrow>
        world (fst (update_rgb_settings b s' t' P)) = world P
      \<and> executed (fst (update_rgb_settings b s' t' P)) = executed P
      \<and> args (limiters (fst (update_rgb_settings b s' t' P)) Rgb) = Some (b, s')
      \<and> last_call (limiters (fst (update_rgb_settings b s' t' P)) Rgb) = Some t)
   \<and> (last_call (limiters P Mono) = Some t \<and> t' - t \<le> period (limiters P Mono) \<longrightarrow>
        world (fst (update_mono_settings b s' t' P)) = world P
      \<and> executed (fst (update_mono_settings b s' t' P)) = executed P
      \<and> args (limiters (fst (update_mono_settings b s' t' P)) Mono) = Some (b, s')
      \<and> last_call (limiters (fst (update_mono_settings b s' t' P)) Mono) = Some t)
   \<and> (last_call (limiters P Rgb) = None
        \<or> (\<exists>u. last_call (limiters P Rgb) = Some u \<and> period (limiters P Rgb) - (t' - u) < 0)
      \<longrightarrow> last_call (limiters (fst (update_rgb_settings a s t' P)) Rgb) = Some t'
        \<and> executed (fst (update_rgb_settings a s t' P)) = executed P @ [(t', Rgb, (a, s))])
   \<and> (last_call (limiters P Mono) = None
        \<or> (\<exists>u. last_call (limiters P Mono) = Some u \<and> period (limiters P Mono) - (t' - u) < 0)
      \<longrightarrow> last_call (limiters (fst (update_mono_settings a s t' P)) Mono) = Some t'
        \<and> executed (fst (update_mono_settings a s t' P)) = executed P @ [(t', Mono, (a, s))])"
proof -
  have per: "period (limiters (fst (async_wrapper update_settings j x now P)) k)
      = period (limiters P k)" for j and x :: "nat \<times> message_id"
    by (simp add: async_wrapper_def wrapper_def Let_def split: option.splits outcome.splits)
  have fper: "\<forall>Q. fire update_settings k' now P = Some Q
      \<longrightarrow> period (limiters (fst Q) k) = period (limiters P k)"
    by (auto simp: fire_def wrapper_def Let_def split: option.splits outcome.splits)
  have held: "last_call (limiters P j) = Some t \<and> t' - t \<le> period (limiters P j) \<longrightarrow>
        world (fst (async_wrapper update_settings j (b, s') t' P)) = world P
      \<and> executed (fst (async_wrapper update_settings j (b, s') t' P)) = executed P
      \<and> args (limiters (fst (async_wrapper update_settings j (b, s') t' P)) j) = Some (b, s')
      \<and> last_call (limiters (fst (async_wrapper update_settings j (b, s') t' P)) j) = Some t"
    for j
    by (simp add: async_wrapper_def next_call_wait_def Let_def)
  have run: "last_call (limiters P j) = None
        \<or> (\<exists>u. last_call (limiters P j) = Some u \<and> period (limiters P j) - (t' - u) < 0)
      \<longrightarrow> last_call (limiters (fst (async_wrapper update_settings j (a, s) t' P)) j) = Some t'
        \<and> executed (fst (async_wrapper update_settings j (a, s) t' P))
            = executed P @ [(t', j, (a, s))]" for j
    by (cases j)
       (auto simp: async_wrapper_def wrapper_def next_call_wait_def Let_def)
  show ?thesis
    unfolding update_rgb_settings_def update_mono_settings_def
    using per fper held [of Rgb] held [of Mono] run [of Rgb] run [of Mono]
    by (simp add: async_wrapper_other_limiter client_process_init_def process_init_def
        RateLimiter_init_def)
qed

theorem limiters_per_channel_shared_by_instances_witness:
  "last_call (limiters (fst (update_rgb_settings 0 (Made 0) 0 (client_process_init two_clients)))
      Rgb) = Some 0
   \<and> 1/2 - 0 \<le> period (limiters
        (fst (update_rgb_settings 0 (Made 0) 0 (client_process_init two_clients))) Rgb)
   \<and> world (fst (update_rgb_settings 1 (Made 0) (1/2)
        (fst (update_rgb_settings 0 (Made 0) 0 (client_process_init two_clients)))))
     = world (fst (update_rgb_settings 0 (Made 0) 0 (client_process_init two_clients)))
   \<and> args (limiters (fst (update_rgb_settings 1 (Made 0) (1/2)
        (fst (update_rgb_settings 0 (Made 0) 0 (client_process_init two_clients))))) Rgb)
     = Some (1, Made 0)"
proof -
  have h: "last_call (limiters (fst (update_rgb_settings 0 (Made 0) 0
               (client_process_init two_clients))) Rgb) = Some 0
         \<and> 1/2 - 0 \<le> period (limiters (fst (update_rgb_settings 0 (Made 0) 0
               (client_process_init two_clients))) Rgb)"
    by (simp add: update_rgb_settings_def client_process_init_def process_init_def
        RateLimiter_init_def async_wrapper_def wrapper_def next_call_wait_def Let_def)
  from limiters_per_channel_shared_by_instances
    [where P = "fst (update_rgb_settings 0 (Made 0) 0 (client_process_init two_clients))"
       and t = 0 and t' = "1/2" and b = 1 and s' = "Made 0"] h
  show ?thesis by blast
qed

text \<open>
  Claim C9. When \<open>update_rgb_settings\<close> (or \<open>update_mono_settings\<close>) is called while
  a deferred execution of that channel is outstanding and the period has not run out, the
  call changes nothing in any client: the settings and \<open>needs_update\<close> stay as they
  are, no timer is added, and a \<open>send_settings\<close> now builds the request from the
  previous values. The new values are held in the limiter, and the deferred execution,
  when the timer runs, writes them to the client and sets \<open>needs_update\<close>.
\<close>

theorem coalesced_update_leaves_client:
  assumes "outstanding_call (limiters P k)"
      and "last_call (limiters P k) = Some t0"
      and "now - t0 \<le> period (limiters P k)"
  shows "world (fst ((case k of Rgb \<Rightarrow> update_rgb_settings | Mono \<Rightarrow> update_mono_settings)
             self new now P)) = world P
       \<and> send_settings_request c (world (fst ((case k of Rgb \<Rightarrow> update_rgb_settings
             | Mono \<Rightarrow> update_mono_settings) self new now P))) = send_settings_request c (world P)
       \<and> scheduled (fst ((case k of Rgb \<Rightarrow> update_rgb_settings | Mono \<Rightarrow> update_mono_settings)
             self new now P)) = scheduled P
       \<and> args (limiters (fst ((case k of Rgb \<Rightarrow> update_rgb_settings
             | Mono \<Rightarrow> update_mono_settings) self new now P)) k) = Some (self, new)
       \<and> (\<forall>now' Q. fire update_settings k now'
              (fst ((case k of Rgb \<Rightarrow> update_rgb_settings | Mono \<Rightarrow> update_mono_settings)
                 self new now P)) = Some Q
            \<longrightarrow> channel_object k (clients (world (fst Q)) self) = new
              \<and> channel_settings k self (world (fst Q)) = messages (world P) new
              \<and> needs_update (clients (world (fst Q)) self))"
  using assms
  by (cases k)
     (auto simp: update_rgb_settings_def update_mono_settings_def async_wrapper_def wrapper_def
        next_call_wait_def Let_def fire_def channel_settings_def channel_object_def
        split: option.splits)

theorem coalesced_update_leaves_client_witness:
  "outstanding_call (limiters pending_rgb_process Rgb)
   \<and> last_call (limiters pending_rgb_process Rgb) = Some 0
   \<and> 3/4 - 0 \<le> period (limiters pending_rgb_process Rgb)
   \<and> channel_settings Rgb 0 (world pending_rgb_process) = manual_exposure
   \<and> messages (world pending_rgb_process) (Made 8) = auto_exposure_on
   \<and> world (fst (update_rgb_settings 0 (Made 8) (3/4) pending_rgb_process))
       = world pending_rgb_process
   \<and> request_rgb_settings (send_settings_request 0
        (world (fst (update_rgb_settings 0 (Made 8) (3/4) pending_rgb_process))))
       = manual_exposure
   \<and> map_option (\<lambda>Q. channel_settings Rgb 0 (world (fst Q)))
        (fire update_settings Rgb 1
           (fst (update_rgb_settings 0 (Made 8) (3/4) pending_rgb_process)))
       = Some auto_exposure_on"
proof -
  note ev = pending_rgb_process_def update_rgb_settings_def client_process_init_def
    process_init_def RateLimiter_init_def async_wrapper_def wrapper_def next_call_wait_def
    Let_def two_clients_def channel_settings_def channel_object_def
  have h1: "outstanding_call (limiters pending_rgb_process Rgb)" by (simp add: ev)
  have h2: "last_call (limiters pending_rgb_process Rgb) = Some 0" by (simp add: ev)
  have h3: "3/4 - 0 \<le> period (limiters pending_rgb_process Rgb)" by (simp add: ev)
  note inst = coalesced_update_leaves_client
    [where P = pending_rgb_process and k = Rgb and ?t0.0 = 0 and now = "3/4" and self = 0
       and new = "Made 8" and c = 0, OF h1 h2 h3, unfolded channel.case]
  have a: "channel_settings Rgb 0 (world pending_rgb_process) = manual_exposure"
    by (simp add: ev)
  have b: "messages (world pending_rgb_process) (Made 8) = auto_exposure_on"
    by (simp add: ev)
  have "fire update_settings Rgb 1
          (fst (update_rgb_settings 0 (Made 8) (3/4) pending_rgb_process)) \<noteq> None"
    by (simp add: ev fire_def)
  then obtain Q where Q: "fire update_settings Rgb 1
          (fst (update_rgb_settings 0 (Made 8) (3/4) pending_rgb_process)) = Some Q"
    by blast
  from inst Q have "channel_settings Rgb 0 (world (fst Q))
      = messages (world pending_rgb_process) (Made 8)" by blast
  with Q a b inst h1 h2 h3 show ?thesis
    by (simp add: channel_settings_def channel_object_def send_settings_request_def)
qed

end
